theory Spec2Isabelle
  imports Main "HOL-Library.Word" "HOL-Library.Sublist"
begin

section \<open>JavaScript strings\<close>

text \<open>
  A JavaScript string is a sequence of UTF-16 code units: \<open>length\<close>, \<open>slice\<close>,
  \<open>trim\<close> and \<open>replace\<close> all work on code units. ASCII text is written with \<open>js\<close>;
  the other characters the services use are given by their code units.
\<close>

type_synonym code_unit = "16 word"
type_synonym jsstring = "code_unit list"

definition js :: "string \<Rightarrow> jsstring" where
  "js s = map of_char s"

abbreviation LF :: code_unit where "LF \<equiv> 0x0A"
abbreviation SP :: code_unit where "SP \<equiv> 0x20"
abbreviation QUOT :: code_unit where "QUOT \<equiv> 0x22"
abbreviation HYPHEN :: code_unit where "HYPHEN \<equiv> 0x2D"
abbreviation BACKTICK :: code_unit where "BACKTICK \<equiv> 0x60"

text \<open>
  \<open>String.prototype.trim\<close> removes WhiteSpace and LineTerminator code points from both
  ends: TAB, LF, VT, FF, CR, SP, NBSP, the Unicode space separators, LS, PS and the
  byte-order mark. All of them are single code units.
\<close>

definition isWhiteSpace :: "code_unit \<Rightarrow> bool" where
  "isWhiteSpace c \<longleftrightarrow>
     c \<in> set [0x09, 0x0A, 0x0B, 0x0C, 0x0D, 0x20, 0xA0, 0x1680,
              0x2000, 0x2001, 0x2002, 0x2003, 0x2004, 0x2005, 0x2006, 0x2007,
              0x2008, 0x2009, 0x200A, 0x2028, 0x2029, 0x202F, 0x205F, 0x3000, 0xFEFF]"

definition trim :: "jsstring \<Rightarrow> jsstring" where
  "trim s = rev (dropWhile isWhiteSpace (rev (dropWhile isWhiteSpace s)))"

text \<open>\<open>Array.prototype.join\<close> on an array of strings.\<close>

fun join :: "jsstring \<Rightarrow> jsstring list \<Rightarrow> jsstring" where
  "join sep [] = []"
| "join sep [x] = x"
| "join sep (x # y # ys) = x @ sep @ join sep (y # ys)"

text \<open>The decimal digits of a non-negative integer, as a template literal prints them.\<close>

fun decimal :: "nat \<Rightarrow> jsstring" where
  "decimal n = (if n < 10 then [0x30 + of_nat n]
                else decimal (n div 10) @ [0x30 + of_nat (n mod 10)])"

declare decimal.simps [simp del]


section \<open>The Notion service\<close>

subsection \<open>Data received from the Notion API\<close>

record rich_text_item =
  plain_text :: jsstring

text \<open>
  A block carries its type tag and the payload of that type. The flattener reads the
  thirteen types below; every other type (image, column list, ...) is \<open>Unsupported\<close>.
\<close>

datatype block_variant =
    Paragraph "rich_text_item list"
  | Heading_1 "rich_text_item list"
  | Heading_2 "rich_text_item list"
  | Heading_3 "rich_text_item list"
  | Bulleted_list_item "rich_text_item list"
  | Numbered_list_item "rich_text_item list"
  | To_do bool "rich_text_item list"
  | Toggle "rich_text_item list"
  | Quote "rich_text_item list"
  | Callout "rich_text_item list"
  | Code jsstring "rich_text_item list"
  | Table_row "rich_text_item list list"
  | Divider
  | Unsupported

record block_object =
  block_id :: jsstring
  has_children :: bool
  variant :: block_variant

text \<open>
  An entry of \<open>response.results\<close>: a partial block has no \<open>type\<close> field and the
  loop skips it.
\<close>

datatype block_response = PartialBlock | FullBlock block_object

datatype parent =
    Database_id jsstring
  | Page_id jsstring
  | Block_id jsstring
  | Workspace

datatype property = Title "rich_text_item list" | OtherProperty

text \<open>
  \<open>properties\<close> lists the page's properties by name, in the order in which
  \<open>Object.values\<close> enumerates them.
\<close>

record page_object =
  page_id :: jsstring
  page_url :: jsstring
  parent :: parent
  properties :: "(jsstring \<times> property) list"

text \<open>A search result is a full page (\<open>isFullPage\<close>) or something else.\<close>

datatype search_result = FullPage page_object | NotFullPage

datatype error = ApiError jsstring

text \<open>
  The client is outside the program. \<open>search\<close> answers the one search request of a
  query. \<open>blocks_children_list\<close> answers a request for the children of a block; its
  answer may depend on the requests made before it, so it also receives the log of block
  identifiers already requested during this query, most recent first. Either call may
  throw.
\<close>

type_synonym fetch_log = "jsstring list"

record notion_client =
  search :: "jsstring \<Rightarrow> error + search_result list"
  blocks_children_list :: "fetch_log \<Rightarrow> jsstring \<Rightarrow> error + block_response list"

text \<open>The exported interface \<open>NotionPage\<close>.\<close>

record notion_page =
  np_id :: jsstring
  title :: jsstring
  url :: jsstring
  content :: jsstring


subsection \<open>Rich text and titles\<close>

definition extractRichText :: "rich_text_item list \<Rightarrow> jsstring" where
  "extractRichText richText = join [] (map plain_text richText)"

definition isTitle :: "property \<Rightarrow> bool" where
  "isTitle prop = (case prop of Title _ \<Rightarrow> True | OtherProperty \<Rightarrow> False)"

definition defaultTitle :: jsstring where
  "defaultTitle = js ''Sin t'' @ [0xED] @ js ''tulo''"

definition extractPageTitle :: "page_object \<Rightarrow> jsstring" where
  "extractPageTitle page =
     (case find isTitle (map snd (properties page)) of
        Some (Title t) \<Rightarrow> extractRichText t
      | _ \<Rightarrow> defaultTitle)"


subsection \<open>Flattening a block tree\<close>

text \<open>The \<open>switch\<close> on the block type: the text of one block.\<close>

fun blockText :: "block_variant \<Rightarrow> jsstring" where
  "blockText (Paragraph rt) = extractRichText rt"
| "blockText (Heading_1 rt) = js ''# '' @ extractRichText rt"
| "blockText (Heading_2 rt) = js ''## '' @ extractRichText rt"
| "blockText (Heading_3 rt) = js ''### '' @ extractRichText rt"
| "blockText (Bulleted_list_item rt) = [0x2022, SP] @ extractRichText rt"
| "blockText (Numbered_list_item rt) = extractRichText rt"
| "blockText (To_do checked rt) =
     (let done = (if checked then [0x2713] else [0x25CB])
      in done @ [SP] @ extractRichText rt)"
| "blockText (Toggle rt) = extractRichText rt"
| "blockText (Quote rt) = js ''> '' @ extractRichText rt"
| "blockText (Callout rt) = [0xD83D, 0xDCCC, SP] @ extractRichText rt"
| "blockText (Code language rt) =
     [BACKTICK, BACKTICK, BACKTICK] @ language @ [LF] @ extractRichText rt @ [LF]
       @ [BACKTICK, BACKTICK, BACKTICK]"
| "blockText (Table_row cells) = join (js '' | '') (map extractRichText cells)"
| "blockText Divider = js ''---''"
| "blockText Unsupported = []"

text \<open>
  \<open>extractBlockContent\<close> and its \<open>for\<close> loop over \<open>response.results\<close>. The loop
  carries the array \<open>lines\<close>; both carry the log of requests. An exception of the client
  leaves the function at once, as a rejected promise does through every \<open>await\<close>. The
  depth counter is a natural number: the callers pass 0 and \<open>depth + 1\<close>.
\<close>

function extractBlockContent ::
    "notion_client \<Rightarrow> jsstring \<Rightarrow> nat \<Rightarrow> fetch_log \<Rightarrow> (error + jsstring) \<times> fetch_log"
  and extractBlockLoop ::
    "notion_client \<Rightarrow> nat \<Rightarrow> block_response list \<Rightarrow> jsstring list \<Rightarrow> fetch_log
       \<Rightarrow> (error + jsstring list) \<times> fetch_log"
where
  "extractBlockContent notion blockId depth log =
     (if depth > 3 then (Inr [], log)
      else
        (case blocks_children_list notion log blockId of
           Inl err \<Rightarrow> (Inl err, blockId # log)
         | Inr results \<Rightarrow>
             (case extractBlockLoop notion depth results [] (blockId # log) of
                (Inl err, log') \<Rightarrow> (Inl err, log')
              | (Inr lines, log') \<Rightarrow> (Inr (join [LF] (filter (\<lambda>l. l \<noteq> []) lines)), log'))))"
| "extractBlockLoop notion depth [] lines log = (Inr lines, log)"
| "extractBlockLoop notion depth (PartialBlock # rest) lines log =
     extractBlockLoop notion depth rest lines log"
| "extractBlockLoop notion depth (FullBlock b # rest) lines log =
     (let text = blockText (variant b);
          lines1 = (if trim text \<noteq> [] then lines @ [text] else lines)
      in if has_children b \<and> depth < 2
         then
           (case extractBlockContent notion (block_id b) (depth + 1) log of
              (Inl err, log') \<Rightarrow> (Inl err, log')
            | (Inr childContent, log') \<Rightarrow>
                extractBlockLoop notion depth rest
                  (if childContent \<noteq> [] then lines1 @ [childContent] else lines1) log')
         else extractBlockLoop notion depth rest lines1 log)"
  by pat_completeness auto

text \<open>
  Every call of \<open>extractBlockContent\<close> is followed by calls at a larger \<open>depth\<close>
  only, and only below depth 2; the loop shortens \<open>results\<close>. Neither depends on what
  the client answers.
\<close>

termination
  by (relation "inv_image (less_than <*lex*> less_than)
        (\<lambda>x. case x of
                Inl (notion, blockId, depth, log) \<Rightarrow> (2 * (3 - depth) + 1, 0)
              | Inr (notion, depth, results, lines, log) \<Rightarrow> (2 * (3 - depth), length results))")
     auto

declare extractBlockContent.simps [simp del]


subsection \<open>Searching and selecting pages\<close>

text \<open>Normalises a Notion identifier by deleting its hyphens (\<open>id.replace(/-/g, '')\<close>).\<close>

definition normalizeId :: "jsstring \<Rightarrow> jsstring" where
  "normalizeId ident = filter (\<lambda>c. c \<noteq> HYPHEN) ident"

text \<open>The callback of \<open>response.results.filter\<close>.\<close>

definition inDatabase :: "jsstring \<Rightarrow> search_result \<Rightarrow> bool" where
  "inDatabase databaseId result =
     (case result of
        NotFullPage \<Rightarrow> False
      | FullPage page \<Rightarrow>
          (case parent page of
             Database_id database_id \<Rightarrow> normalizeId database_id = normalizeId databaseId
           | _ \<Rightarrow> False))"

text \<open>
  \<open>databaseId\<close> is \<open>process.env.NOTION_DATABASE_ID\<close>: undefined (\<open>None\<close>) or a string.
  The conditional tests its truthiness, so the empty string turns the filter off too.
\<close>

definition filtered :: "jsstring option \<Rightarrow> search_result list \<Rightarrow> search_result list" where
  "filtered databaseId results =
     (case databaseId of
        None \<Rightarrow> results
      | Some d \<Rightarrow> if d \<noteq> [] then filter (inDatabase d) results else results)"

text \<open>
  The \<open>for\<close> loop over \<open>filtered.slice(0, 5)\<close>, with the array \<open>pages\<close> and the log of
  requests; \<open>flat\<close> is the source's local \<open>content\<close>. The \<open>catch\<close> clause logs the
  exception and the loop goes on. Writing to the console has no effect on the result and
  is left out, here and in the other functions.
\<close>

fun searchLoop ::
    "notion_client \<Rightarrow> search_result list \<Rightarrow> notion_page list \<Rightarrow> fetch_log
       \<Rightarrow> notion_page list \<times> fetch_log"
where
  "searchLoop notion [] pages log = (pages, log)"
| "searchLoop notion (NotFullPage # rest) pages log = searchLoop notion rest pages log"
| "searchLoop notion (FullPage result # rest) pages log =
     (let title = extractPageTitle result
      in case extractBlockContent notion (page_id result) 0 log of
           (Inr flat, log') \<Rightarrow>
             if trim flat \<noteq> []
             then searchLoop notion rest
                    (pages @ [\<lparr>np_id = page_id result, title = title, url = page_url result,
                               content = take 3000 flat\<rparr>]) log'
             else searchLoop notion rest pages log'
         | (Inl err, log') \<Rightarrow> searchLoop notion rest pages log')"

definition searchNotion ::
    "notion_client \<Rightarrow> jsstring option \<Rightarrow> jsstring \<Rightarrow> error + notion_page list"
where
  "searchNotion notion databaseId query =
     (case search notion query of
        Inl err \<Rightarrow> Inl err
      | Inr results \<Rightarrow>
          Inr (fst (searchLoop notion (take 5 (filtered databaseId results)) [] [])))"


section \<open>The Claude service\<close>

datatype content_block = Text jsstring | NonText

record message_request =
  model :: jsstring
  max_tokens :: nat
  system :: jsstring
  user_content :: jsstring

text \<open>\<open>anthropic.messages.create\<close>: the content blocks of the response, or an exception.\<close>

type_synonym anthropic_client = "message_request \<Rightarrow> error + content_block list"

definition SYSTEM_PROMPT :: jsstring where
  "SYSTEM_PROMPT =
     js ''Eres un asistente interno de empresa. Tu funci'' @ [0xF3]
     @ js ''n es responder preguntas del equipo usando '' @ [0xFA]
     @ js ''nicamente la informaci'' @ [0xF3]
     @ js ''n del wiki de Notion que se te proporcionar'' @ [0xE1]
     @ js '' como contexto.'' @ [LF, LF]
     @ js ''Reglas:'' @ [LF]
     @ js ''- Responde SIEMPRE en espa'' @ [0xF1] @ js ''ol'' @ [LF]
     @ js ''- Basa tus respuestas EXCLUSIVAMENTE en el contexto de Notion ''
     @ js ''proporcionado'' @ [LF]
     @ js ''- Si el contexto no tiene suficiente informaci'' @ [0xF3]
     @ js ''n, dilo claramente en lugar de inventar'' @ [LF]
     @ js ''- S'' @ [0xE9] @ js '' conciso y directo, pero completo'' @ [LF]
     @ js ''- Usa formato Markdown: negritas, listas, etc. cuando mejore ''
     @ js ''la legibilidad'' @ [LF]
     @ js ''- Al final de cada respuesta, incluye las fuentes con este formato ''
     @ js ''exacto:'' @ [LF]
     @ js ''  '' @ [0xD83D, 0xDCDA]
     @ js '' *Fuente(s):* <URL_1|Nombre_P'' @ [0xE1]
     @ js ''gina_1>, <URL_2|Nombre_P'' @ [0xE1] @ js ''gina_2>'' @ [LF]
     @ js ''  (usa formato de enlace de Slack: <url|texto>)'' @ [LF]
     @ js ''- Si hay varias p'' @ [0xE1]
     @ js ''ginas relevantes, menciona cu'' @ [0xE1] @ js ''l secci'' @ [0xF3]
     @ js ''n responde qu'' @ [0xE9] @ js '' parte''"

definition noInformation :: jsstring where
  "noInformation =
     [0x274C] @ js '' No encontr'' @ [0xE9] @ js '' informaci'' @ [0xF3]
     @ js ''n relevante en el wiki de Notion para tu pregunta.'' @ [LF, LF]
     @ js ''Intenta reformularla, usa t'' @ [0xE9] @ js ''rminos m'' @ [0xE1]
     @ js ''s espec'' @ [0xED] @ js ''ficos, o revisa directamente en Notion.''"

definition noAnswer :: jsstring where
  "noAnswer =
     [0x26A0, 0xFE0F] @ js '' No se pudo generar una respuesta. Intenta de nuevo.''"

text \<open>The callback of \<open>notionPages.map\<close>: one page of the context, \<open>i\<close> counted from 0.\<close>

definition pageContext :: "nat \<Rightarrow> notion_page \<Rightarrow> jsstring" where
  "pageContext i page =
     js ''[P'' @ [0xC1] @ js ''GINA '' @ decimal (i + 1) @ js '': '' @ [QUOT] @ title page
       @ [QUOT] @ js '']'' @ [LF] @ js ''URL: '' @ url page @ [LF, LF] @ content page"

text \<open>The argument of \<open>join\<close>: the text put between two pages.\<close>

definition pageSeparator :: jsstring where
  "pageSeparator = [LF, LF] @ js ''---'' @ [LF, LF]"

definition contextText :: "notion_page list \<Rightarrow> jsstring" where
  "contextText notionPages =
     join pageSeparator (map (\<lambda>(i, page). pageContext i page) (enumerate 0 notionPages))"

definition isText :: "content_block \<Rightarrow> bool" where
  "isText b = (case b of Text _ \<Rightarrow> True | NonText \<Rightarrow> False)"

text \<open>
  \<open>generateAnswer\<close> returns its result together with the requests it sent to the
  language model, in order.
\<close>

definition generateAnswer ::
    "anthropic_client \<Rightarrow> jsstring \<Rightarrow> notion_page list
       \<Rightarrow> (error + jsstring) \<times> message_request list"
where
  "generateAnswer anthropic query notionPages =
     (if length notionPages = 0 then (Inr noInformation, [])
      else
        (let userMessage =
               js ''Contexto del wiki de Notion:'' @ [LF, LF] @ contextText notionPages
                 @ [LF, LF] @ js ''---'' @ [LF, LF] @ js ''Pregunta: '' @ query;
             request = \<lparr>model = js ''claude-sonnet-4-6'', max_tokens = 1024,
                        system = SYSTEM_PROMPT, user_content = userMessage\<rparr>
         in case anthropic request of
              Inl err \<Rightarrow> (Inl err, [request])
            | Inr response \<Rightarrow>
                (case find isText response of
                   Some (Text t) \<Rightarrow> (Inr t, [request])
                 | _ \<Rightarrow> (Inr noAnswer, [request]))))"


section \<open>Auxiliary notions\<close>

text \<open>
  The number of requests a call of \<open>extractBlockContent\<close> at \<open>depth\<close> can send when no
  answer of the store lists more than \<open>n\<close> blocks: one for the block itself and, below
  depth 2, those of each child.
\<close>

definition requestBound :: "nat \<Rightarrow> nat \<Rightarrow> nat" where
  "requestBound n depth =
     (if depth = 0 then 1 + n + n * n else if depth = 1 then 1 + n else 1)"

text \<open>
  The object that \<open>searchNotion\<close> pushes for the page \<open>result\<close> whose flattened text is
  \<open>flat\<close>, and what one pass of its loop adds to \<open>pages\<close>, given the outcome of
  \<open>extractBlockContent\<close> for that page.
\<close>

definition rendering :: "page_object \<Rightarrow> jsstring \<Rightarrow> notion_page" where
  "rendering result flat =
     \<lparr>np_id = page_id result, title = extractPageTitle result, url = page_url result,
      content = take 3000 flat\<rparr>"

definition contribution :: "page_object \<Rightarrow> error + jsstring \<Rightarrow> notion_page list" where
  "contribution result outcome =
     (case outcome of
        Inl err \<Rightarrow> []
      | Inr flat \<Rightarrow> if trim flat \<noteq> [] then [rendering result flat] else [])"


section \<open>Example inputs\<close>

text \<open>A paragraph ``Hello'' with nested children and a bulleted item ``World''.\<close>

definition helloParagraph :: block_object where
  "helloParagraph =
     \<lparr>block_id = js ''p'', has_children = True,
      variant = Paragraph [\<lparr>plain_text = js ''Hello''\<rparr>]\<rparr>"

definition worldItem :: block_object where
  "worldItem =
     \<lparr>block_id = js ''q'', has_children = False,
      variant = Bulleted_list_item [\<lparr>plain_text = js ''World''\<rparr>]\<rparr>"

text \<open>
  A cyclic store: the children of every block are the one paragraph \<open>p\<close>, which
  therefore contains itself at every depth.
\<close>

definition cyclicNotion :: notion_client where
  "cyclicNotion =
     \<lparr>search = (\<lambda>query. Inr []),
      blocks_children_list = (\<lambda>log blockId. Inr [FullBlock helloParagraph])\<rparr>"

text \<open>
  A small wiki. The search returns six results: a page whose only paragraph is blank, a
  result that is not a full page, a page with a toggle whose children cannot be fetched,
  a page outside the database with no title property, a page with an empty title that
  holds the paragraph and the bulleted item above, and one more page of the database.
\<close>

definition blankParagraph :: block_object where
  "blankParagraph =
     \<lparr>block_id = js ''b1'', has_children = False,
      variant = Paragraph [\<lparr>plain_text = js ''  ''\<rparr>]\<rparr>"

definition brokenToggle :: block_object where
  "brokenToggle =
     \<lparr>block_id = js ''gone'', has_children = True,
      variant = Toggle [\<lparr>plain_text = js ''More''\<rparr>]\<rparr>"

definition blankPage :: page_object where
  "blankPage =
     \<lparr>page_id = js ''blank'', page_url = js ''https://www.notion.so/blank'',
      parent = Database_id (js ''abc-123''),
      properties = [(js ''Name'', Title [\<lparr>plain_text = js ''Blank''\<rparr>])]\<rparr>"

definition brokenPage :: page_object where
  "brokenPage =
     \<lparr>page_id = js ''broken'', page_url = js ''https://www.notion.so/broken'',
      parent = Database_id (js ''abc123''),
      properties = [(js ''Name'', Title [\<lparr>plain_text = js ''Broken''\<rparr>])]\<rparr>"

definition otherPage :: page_object where
  "otherPage =
     \<lparr>page_id = js ''other'', page_url = js ''https://www.notion.so/other'',
      parent = Page_id (js ''abc123''),
      properties = [(js ''Tags'', OtherProperty)]\<rparr>"

definition helloPage :: page_object where
  "helloPage =
     \<lparr>page_id = js ''root'', page_url = js ''https://www.notion.so/root'',
      parent = Database_id (js ''abc-123''),
      properties = [(js ''Tags'', OtherProperty), (js ''Name'', Title [])]\<rparr>"

definition latePage :: page_object where
  "latePage =
     \<lparr>page_id = js ''late'', page_url = js ''https://www.notion.so/late'',
      parent = Database_id (js ''abc123''),
      properties = [(js ''Name'', Title [\<lparr>plain_text = js ''Late''\<rparr>])]\<rparr>"

definition wikiResults :: "search_result list" where
  "wikiResults =
     [FullPage blankPage, NotFullPage, FullPage brokenPage, FullPage otherPage,
      FullPage helloPage, FullPage latePage]"

definition wikiNotion :: notion_client where
  "wikiNotion =
     \<lparr>search = (\<lambda>query. Inr wikiResults),
      blocks_children_list = (\<lambda>log blockId.
        if blockId = js ''blank'' then Inr [FullBlock blankParagraph]
        else if blockId = js ''broken'' then Inr [FullBlock brokenToggle]
        else if blockId = js ''other'' then Inr [PartialBlock, FullBlock worldItem]
        else if blockId = js ''root'' then Inr [FullBlock helloParagraph]
        else if blockId = js ''p'' then Inr [FullBlock worldItem]
        else if blockId = js ''late'' then Inr [FullBlock worldItem]
        else Inl (ApiError (js ''object_not_found'')))\<rparr>"

text \<open>The documents that the pages of the wiki give.\<close>

definition otherDoc :: notion_page where
  "otherDoc =
     \<lparr>np_id = js ''other'', title = defaultTitle, url = js ''https://www.notion.so/other'',
      content = [0x2022, SP] @ js ''World''\<rparr>"

definition helloDoc :: notion_page where
  "helloDoc =
     \<lparr>np_id = js ''root'', title = [], url = js ''https://www.notion.so/root'',
      content = js ''Hello'' @ [LF] @ [0x2022, SP] @ js ''World''\<rparr>"

definition lateDoc :: notion_page where
  "lateDoc =
     \<lparr>np_id = js ''late'', title = js ''Late'', url = js ''https://www.notion.so/late'',
      content = [0x2022, SP] @ js ''World''\<rparr>"

text \<open>
  A page that starts with 3000 spaces before its first letter, in two rich-text items of
  one paragraph.
\<close>

definition paddedParagraph :: block_object where
  "paddedParagraph =
     \<lparr>block_id = js ''b2'', has_children = False,
      variant = Paragraph [\<lparr>plain_text = replicate 3000 SP\<rparr>, \<lparr>plain_text = js ''x''\<rparr>]\<rparr>"

definition paddedPage :: page_object where
  "paddedPage =
     \<lparr>page_id = js ''padded'', page_url = js ''https://www.notion.so/padded'',
      parent = Workspace, properties = []\<rparr>"

definition paddedNotion :: notion_client where
  "paddedNotion =
     \<lparr>search = (\<lambda>query. Inr [FullPage paddedPage]),
      blocks_children_list = (\<lambda>log blockId. Inr [FullBlock paddedParagraph])\<rparr>"

text \<open>
  A store whose every answer lists four entries: the paragraph ``Hello'', a partial
  block, a blank paragraph and the bulleted item ``World''.
\<close>

definition listNotion :: notion_client where
  "listNotion =
     \<lparr>search = (\<lambda>query. Inr []),
      blocks_children_list = (\<lambda>log blockId.
        Inr [FullBlock helloParagraph, PartialBlock, FullBlock blankParagraph,
             FullBlock worldItem])\<rparr>"

text \<open>
  A page of three blocks: a paragraph ``A'' that ends with a line feed, a divider, and
  a paragraph ``B'' that starts with a line feed.
\<close>

definition dividerNotion :: notion_client where
  "dividerNotion =
     \<lparr>search = (\<lambda>query. Inr []),
      blocks_children_list = (\<lambda>log blockId.
        Inr [FullBlock \<lparr>block_id = js ''b3'', has_children = False,
                         variant = Paragraph [\<lparr>plain_text = js ''A'' @ [LF]\<rparr>]\<rparr>,
             FullBlock \<lparr>block_id = js ''b4'', has_children = False, variant = Divider\<rparr>,
             FullBlock \<lparr>block_id = js ''b5'', has_children = False,
                         variant = Paragraph [\<lparr>plain_text = [LF] @ js ''B''\<rparr>]\<rparr>])\<rparr>"

text \<open>A page of another database, \<open>abd-123\<close>.\<close>

definition foreignPage :: page_object where
  "foreignPage =
     \<lparr>page_id = js ''foreign'', page_url = js ''https://www.notion.so/foreign'',
      parent = Database_id (js ''abd-123''),
      properties = [(js ''Name'', Title [\<lparr>plain_text = js ''Foreign''\<rparr>])]\<rparr>"

text \<open>A language model that answers with no text block.\<close>

definition nonTextModel :: anthropic_client where
  "nonTextModel = (\<lambda>request. Inr [NonText])"


section \<open>Strings\<close>

lemma dropWhile_all_iff: "(\<forall>x\<in>set (dropWhile P s). P x) \<longleftrightarrow> (\<forall>x\<in>set s. P x)"
  by (induction s) auto

lemma trim_eq_Nil_iff: "trim s = [] \<longleftrightarrow> (\<forall>c\<in>set s. isWhiteSpace c)"
  by (simp add: trim_def dropWhile_all_iff)

lemma trim_Nil: "trim [] = []"
  by (simp add: trim_def)

lemma join_Nil_concat: "join [] xs = concat xs"
  by (induction xs rule: induct_list012) auto

lemma join_snoc: "xs \<noteq> [] \<Longrightarrow> join sep (xs @ [x]) = join sep xs @ sep @ x"
  by (induction sep xs rule: join.induct) auto


section \<open>The depth ceiling of the flattener\<close>

text \<open>
  Where the loop does not descend, that is from depth 2 on, it sends no request and adds
  to \<open>lines\<close> the text of every full block whose trimmed text is not empty, in order.
\<close>

lemma extractBlockLoop_no_descent:
  "2 \<le> depth \<Longrightarrow>
   extractBlockLoop notion depth results lines log =
     (Inr (lines @ [blockText (variant b). FullBlock b \<leftarrow> results,
                     trim (blockText (variant b)) \<noteq> []]), log)"
proof (induction results arbitrary: lines)
  case Nil
  show ?case by simp
next
  case (Cons r rs)
  show ?case
  proof (cases r)
    case PartialBlock
    with Cons show ?thesis by simp
  next
    case (FullBlock b)
    with Cons show ?thesis by (simp add: Let_def)
  qed
qed

lemma filter_own_lines:
  "filter (\<lambda>l. l \<noteq> []) [blockText (variant b). FullBlock b \<leftarrow> results,
                               trim (blockText (variant b)) \<noteq> []]
     = [blockText (variant b). FullBlock b \<leftarrow> results, trim (blockText (variant b)) \<noteq> []]"
proof (induction results)
  case Nil
  show ?case by simp
next
  case (Cons r rs)
  then show ?case by (cases r) (auto simp: trim_Nil)
qed

text \<open>
  C1, as the code has it. The guard of \<open>extractBlockContent\<close> is \<open>depth > 3\<close>. At a
  depth of 4 or more the function returns the empty string at once and sends no request,
  whatever the store holds. At depth 3 the guard does not fire: the function sends the
  one request for the children of the block and, unless that request throws, returns the
  texts of the full blocks among them whose trimmed text is not empty, in order and
  joined by line feeds, without descending into any of them.
\<close>

theorem extractBlockContent_above_ceiling:
  "(3 < depth \<longrightarrow> extractBlockContent notion blockId depth log = (Inr [], log)) \<and>
   (depth = 3 \<longrightarrow>
      extractBlockContent notion blockId depth log =
        (case blocks_children_list notion log blockId of
           Inl err \<Rightarrow> (Inl err, blockId # log)
         | Inr results \<Rightarrow>
             (Inr (join [LF] [blockText (variant b). FullBlock b \<leftarrow> results,
                                trim (blockText (variant b)) \<noteq> []]),
              blockId # log)))"
proof (intro conjI impI)
  assume "3 < depth"
  then show "extractBlockContent notion blockId depth log = (Inr [], log)"
    by (simp add: extractBlockContent.simps)
next
  assume d: "depth = 3"
  show "extractBlockContent notion blockId depth log =
        (case blocks_children_list notion log blockId of
           Inl err \<Rightarrow> (Inl err, blockId # log)
         | Inr results \<Rightarrow>
             (Inr (join [LF] [blockText (variant b). FullBlock b \<leftarrow> results,
                                trim (blockText (variant b)) \<noteq> []]),
              blockId # log))"
  proof (cases "blocks_children_list notion log blockId")
    case (Inl err)
    with d show ?thesis by (simp add: extractBlockContent.simps)
  next
    case (Inr results)
    have "extractBlockLoop notion 3 results [] (blockId # log) =
            (Inr ([] @ [blockText (variant b). FullBlock b \<leftarrow> results,
                          trim (blockText (variant b)) \<noteq> []]), blockId # log)"
      by (rule extractBlockLoop_no_descent) simp
    with d Inr show ?thesis
      by (simp add: extractBlockContent.simps filter_own_lines del: concat_map_singleton)
  qed
qed

text \<open>
  At depth 4 the cyclic store is not asked. At depth 3 the store of four entries is
  asked once and both non-blank lines are returned.
\<close>

theorem extractBlockContent_above_ceiling_witness:
  "extractBlockContent cyclicNotion (js ''p'') 4 [] = (Inr [], [])
   \<and> extractBlockContent listNotion (js ''p'') 3 []
       = (Inr (js ''Hello'' @ [LF] @ [0x2022, SP] @ js ''World''), [js ''p''])"
proof
  have "(3::nat) < 4" by simp
  with extractBlockContent_above_ceiling[of 4 cyclicNotion "js ''p''" "[]"]
  show "extractBlockContent cyclicNotion (js ''p'') 4 [] = (Inr [], [])" by blast
  have "extractBlockContent listNotion (js ''p'') 3 [] =
        (case blocks_children_list listNotion [] (js ''p'') of
           Inl err \<Rightarrow> (Inl err, js ''p'' # [])
         | Inr results \<Rightarrow>
             (Inr (join [LF] [blockText (variant b). FullBlock b \<leftarrow> results,
                                trim (blockText (variant b)) \<noteq> []]),
              js ''p'' # []))"
    using extractBlockContent_above_ceiling[of 3 listNotion "js ''p''" "[]"] by blast
  then show "extractBlockContent listNotion (js ''p'') 3 []
       = (Inr (js ''Hello'' @ [LF] @ [0x2022, SP] @ js ''World''), [js ''p''])"
    by (simp add: listNotion_def helloParagraph_def blankParagraph_def worldItem_def js_def
          extractRichText_def trim_def isWhiteSpace_def)
qed

text \<open>
  At depth 3 the children of the block are still requested and rendered: the flattener
  returns ``Hello'', not the empty string.
\<close>

theorem extractBlockContent_depth_3_counterexample:
  "extractBlockContent cyclicNotion (js ''p'') 3 [] = (Inr (js ''Hello''), [js ''p''])
   \<and> js ''Hello'' \<noteq> []"
  by (simp add: extractBlockContent.simps cyclicNotion_def helloParagraph_def js_def
        extractRichText_def trim_def isWhiteSpace_def)


section \<open>Termination of the flattener\<close>

text \<open>
  The log of requests only grows, and a call adds at most \<open>requestBound n depth\<close>
  entries to it. The proof follows the recursion of the two functions.
\<close>

lemma requests_bounded:
  "\<exists>new. snd (extractBlockContent notion blockId depth log) = new @ log \<and>
     ((\<forall>l b rs. blocks_children_list notion l b = Inr rs \<longrightarrow> length rs \<le> n)
        \<longrightarrow> length new \<le> requestBound n depth)"
  "\<exists>new. snd (extractBlockLoop notion depth results lines log) = new @ log \<and>
     ((\<forall>l b rs. blocks_children_list notion l b = Inr rs \<longrightarrow> length rs \<le> n)
        \<longrightarrow> length new
              \<le> length results * (if depth < 2 then requestBound n (depth + 1) else 0))"
proof (induction notion blockId depth log and notion depth results lines log
       rule: extractBlockContent_extractBlockLoop.induct)
  case (1 notion blockId depth log)
  let ?bounded = "\<forall>l b rs. blocks_children_list notion l b = Inr rs \<longrightarrow> length rs \<le> n"
  define K where "K = (if depth < 2 then requestBound n (depth + 1) else 0)"
  show ?case
  proof (cases "3 < depth")
    case True
    then show ?thesis by (simp add: extractBlockContent.simps)
  next
    case False
    show ?thesis
    proof (cases "blocks_children_list notion log blockId")
      case (Inl e)
      with False show ?thesis by (simp add: requestBound_def extractBlockContent.simps)
    next
      case (Inr results)
      from "1.IH"[OF False Inr] obtain new where
        new: "snd (extractBlockLoop notion depth results [] (blockId # log))
                = new @ blockId # log"
        and len: "?bounded \<longrightarrow> length new \<le> length results * K"
        unfolding K_def by blast
      obtain r log' where
        r: "extractBlockLoop notion depth results [] (blockId # log) = (r, log')"
        by (cases "extractBlockLoop notion depth results [] (blockId # log)")
      have s: "snd (extractBlockContent notion blockId depth log) = (new @ [blockId]) @ log"
        using False Inr new r by (cases r) (simp_all add: extractBlockContent.simps)
      have "length (new @ [blockId]) \<le> requestBound n depth" if b: ?bounded
      proof -
        have "length results \<le> n" using b Inr by blast
        then have "length results * K \<le> n * K"
          by (rule mult_le_mono1)
        moreover have "length new \<le> length results * K"
          using len b by blast
        ultimately have "length new \<le> n * K" by (rule order_trans[rotated])
        moreover have "1 + n * K \<le> requestBound n depth"
          by (simp add: K_def requestBound_def)
        ultimately show ?thesis by simp
      qed
      with s show ?thesis by blast
    qed
  qed
next
  case (2 notion depth lines log)
  then show ?case by simp
next
  case (3 notion depth rest lines log)
  let ?bounded = "\<forall>l b rs. blocks_children_list notion l b = Inr rs \<longrightarrow> length rs \<le> n"
  define K where "K = (if depth < 2 then requestBound n (depth + 1) else 0)"
  from "3.IH" obtain new where
    new: "snd (extractBlockLoop notion depth rest lines log) = new @ log"
    and len: "?bounded \<longrightarrow> length new \<le> length rest * K"
    unfolding K_def by blast
  have "snd (extractBlockLoop notion depth (PartialBlock # rest) lines log) = new @ log"
    using new by simp
  moreover have "?bounded \<longrightarrow> length new \<le> length (PartialBlock # rest) * K"
    using len by auto
  ultimately show ?case unfolding K_def by blast
next
  case (4 notion depth b rest lines log)
  let ?bounded = "\<forall>l b rs. blocks_children_list notion l b = Inr rs \<longrightarrow> length rs \<le> n"
  define tx where "tx = blockText (variant b)"
  define lines1 where "lines1 = (if trim tx \<noteq> [] then lines @ [tx] else lines)"
  define K where "K = (if depth < 2 then requestBound n (depth + 1) else 0)"
  have step: "extractBlockLoop notion depth (FullBlock b # rest) lines log =
     (if has_children b \<and> depth < 2
      then (case extractBlockContent notion (block_id b) (depth + 1) log of
              (Inl err, log') \<Rightarrow> (Inl err, log')
            | (Inr childContent, log') \<Rightarrow>
                extractBlockLoop notion depth rest
                  (if childContent \<noteq> [] then lines1 @ [childContent] else lines1) log')
      else extractBlockLoop notion depth rest lines1 log)"
    unfolding tx_def lines1_def by (simp add: Let_def)
  show ?case
  proof (cases "has_children b \<and> depth < 2")
    case False
    from "4.IH"(3)[OF tx_def lines1_def False] obtain new where
      new: "snd (extractBlockLoop notion depth rest lines1 log) = new @ log"
      and len: "?bounded \<longrightarrow> length new \<le> length rest * K"
      unfolding K_def by blast
    have "snd (extractBlockLoop notion depth (FullBlock b # rest) lines log) = new @ log"
      using False new by (simp only: step if_False)
    moreover have "?bounded \<longrightarrow> length new \<le> length (FullBlock b # rest) * K"
      using len by auto
    ultimately show ?thesis unfolding K_def by blast
  next
    case True
    from "4.IH"(1)[OF tx_def lines1_def True] obtain new1 where
      new1: "snd (extractBlockContent notion (block_id b) (depth + 1) log) = new1 @ log"
      and len1: "?bounded \<longrightarrow> length new1 \<le> requestBound n (depth + 1)"
      by blast
    obtain r log' where
      r: "extractBlockContent notion (block_id b) (depth + 1) log = (r, log')"
      by (cases "extractBlockContent notion (block_id b) (depth + 1) log")
    with new1 have log': "log' = new1 @ log" by simp
    have K: "K = requestBound n (depth + 1)" using True by (simp add: K_def)
    show ?thesis
    proof (cases r)
      case (Inl e)
      have "snd (extractBlockLoop notion depth (FullBlock b # rest) lines log) = new1 @ log"
        using True r log' Inl by (simp only: step if_True split: prod.splits sum.splits) simp
      moreover have "?bounded \<longrightarrow> length new1 \<le> length (FullBlock b # rest) * K"
        using len1 K by auto
      ultimately show ?thesis unfolding K_def by blast
    next
      case (Inr childContent)
      define lines2 where
        "lines2 = (if childContent \<noteq> [] then lines1 @ [childContent] else lines1)"
      from "4.IH"(2)[OF tx_def lines1_def True r[symmetric, unfolded Inr] refl]
      obtain new2 where
        new2: "snd (extractBlockLoop notion depth rest lines2 log') = new2 @ log'"
        and len2: "?bounded \<longrightarrow> length new2 \<le> length rest * K"
        unfolding lines2_def K_def by blast
      have "extractBlockLoop notion depth (FullBlock b # rest) lines log =
              extractBlockLoop notion depth rest lines2 log'"
        using True by (simp only: step if_True r Inr lines2_def) simp
      then have "snd (extractBlockLoop notion depth (FullBlock b # rest) lines log)
                   = (new2 @ new1) @ log"
        using new2 log' by simp
      moreover have "?bounded \<longrightarrow> length (new2 @ new1) \<le> length (FullBlock b # rest) * K"
        using len1 len2 K by auto
      ultimately show ?thesis unfolding K_def by blast
    qed
  qed
qed

lemma requestBound_le: "requestBound n depth \<le> 1 + n + n * n"
  by (simp add: requestBound_def)

text \<open>
  C7. \<open>extractBlockContent\<close> returns for every store, every block and every depth:
  its recursion was shown to end from the depth counter and the length of each answer
  alone, with no assumption on the store and no record of visited blocks. A call sends a
  finite list of requests \<open>new\<close>, which it puts before the log it was given. When no
  answer of the store lists more than \<open>n\<close> blocks, these are at most \<open>1 + n + n\<^sup>2\<close>
  requests, whatever identifiers the blocks carry (cycles) and however deep the tree
  below them is.
\<close>

theorem extractBlockContent_terminates:
  "\<exists>result new.
     extractBlockContent notion blockId depth log = (result, new @ log) \<and>
     ((\<forall>log' b results.
          blocks_children_list notion log' b = Inr results \<longrightarrow> length results \<le> n)
        \<longrightarrow> length new \<le> 1 + n + n * n)"
proof -
  from requests_bounded(1)[of notion blockId depth log n] obtain new where
    new: "snd (extractBlockContent notion blockId depth log) = new @ log"
    and len: "(\<forall>log' b results.
                 blocks_children_list notion log' b = Inr results \<longrightarrow> length results \<le> n)
               \<longrightarrow> length new \<le> requestBound n depth"
    by blast
  from len requestBound_le[of n depth]
  have "(\<forall>log' b results.
            blocks_children_list notion log' b = Inr results \<longrightarrow> length results \<le> n)
          \<longrightarrow> length new \<le> 1 + n + n * n"
    by (blast intro: order_trans)
  moreover have "extractBlockContent notion blockId depth log
                   = (fst (extractBlockContent notion blockId depth log), new @ log)"
    using new by (simp add: prod_eq_iff)
  ultimately show ?thesis by blast
qed

text \<open>
  On the cyclic store every answer lists one block; a call at depth 0 sends three
  requests and returns ``Hello'' three times.
\<close>

theorem extractBlockContent_terminates_witness:
  "(\<exists>result new.
      extractBlockContent cyclicNotion (js ''p'') 0 [] = (result, new @ []) \<and>
      length new \<le> 1 + 1 + 1 * 1)
   \<and> extractBlockContent cyclicNotion (js ''p'') 0 []
       = (Inr (js ''Hello'' @ [LF] @ js ''Hello'' @ [LF] @ js ''Hello''),
          [js ''p'', js ''p'', js ''p''])"
proof
  have "\<forall>log' b results.
          blocks_children_list cyclicNotion log' b = Inr results \<longrightarrow> length results \<le> 1"
    by (auto simp: cyclicNotion_def)
  with extractBlockContent_terminates[of cyclicNotion "js ''p''" 0 "[]" 1]
  show "\<exists>result new.
      extractBlockContent cyclicNotion (js ''p'') 0 [] = (result, new @ []) \<and>
      length new \<le> 1 + 1 + 1 * 1"
    by blast
  show "extractBlockContent cyclicNotion (js ''p'') 0 []
       = (Inr (js ''Hello'' @ [LF] @ js ''Hello'' @ [LF] @ js ''Hello''),
          [js ''p'', js ''p'', js ''p''])"
    by (simp add: extractBlockContent.simps cyclicNotion_def helloParagraph_def js_def
          extractRichText_def trim_def isWhiteSpace_def Let_def)
qed


section \<open>Rendering\<close>

text \<open>
  C9. The store answers the request for the children of \<open>root\<close> with one paragraph
  ``Hello'' that has nested children, and the request for the children of that
  paragraph with one bulleted item ``World''. Flattening \<open>root\<close> at depth 0 gives
  ``Hello'', a line feed, and ``World'' behind a bullet and a space.
\<close>

theorem extractBlockContent_hello_world:
  assumes "blocks_children_list notion log root =
             Inr [FullBlock \<lparr>block_id = p, has_children = True, variant = Paragraph hello\<rparr>]"
    and "extractRichText hello = js ''Hello''"
    and "blocks_children_list notion (root # log) p =
             Inr [FullBlock \<lparr>block_id = q, has_children = False,
                             variant = Bulleted_list_item world\<rparr>]"
    and "extractRichText world = js ''World''"
  shows "fst (extractBlockContent notion root 0 log)
           = Inr (js ''Hello'' @ [LF] @ [0x2022, SP] @ js ''World'')"
  using assms
  by (simp add: extractBlockContent.simps js_def trim_def isWhiteSpace_def Let_def)

theorem extractBlockContent_hello_world_witness:
  "fst (extractBlockContent wikiNotion (js ''root'') 0 [])
     = Inr (js ''Hello'' @ [LF] @ [0x2022, SP] @ js ''World'')"
proof (rule extractBlockContent_hello_world)
  show "blocks_children_list wikiNotion [] (js ''root'') =
          Inr [FullBlock \<lparr>block_id = js ''p'', has_children = True,
                          variant = Paragraph [\<lparr>plain_text = js ''Hello''\<rparr>]\<rparr>]"
    by (simp add: wikiNotion_def helloParagraph_def js_def)
  show "extractRichText [\<lparr>plain_text = js ''Hello''\<rparr>] = js ''Hello''"
    by (simp add: extractRichText_def)
  show "blocks_children_list wikiNotion [js ''root''] (js ''p'') =
          Inr [FullBlock \<lparr>block_id = js ''q'', has_children = False,
                  variant = Bulleted_list_item [\<lparr>plain_text = js ''World''\<rparr>]\<rparr>]"
    by (simp add: wikiNotion_def worldItem_def js_def)
  show "extractRichText [\<lparr>plain_text = js ''World''\<rparr>] = js ''World''"
    by (simp add: extractRichText_def)
qed


section \<open>The page separator and the block markers\<close>

lemma contextText_snoc:
  "contextText (ps @ [p]) =
     (if ps = [] then pageContext 0 p
      else contextText ps @ pageSeparator @ pageContext (length ps) p)"
proof (cases "ps = []")
  case True
  then show ?thesis by (simp add: contextText_def)
next
  case False
  then have "map (\<lambda>(i, page). pageContext i page) (enumerate 0 ps) \<noteq> []"
    by (cases ps) simp_all
  from join_snoc[OF this, of pageSeparator "pageContext (length ps) p"] False
  show ?thesis by (simp add: contextText_def enumerate_append_eq)
qed

text \<open>
  C2, as the code has it. \<open>generateAnswer\<close> sends one request for a non-empty list of
  pages, and the context in it is the texts of the pages with \<open>pageSeparator\<close> between
  each two of them. That separator is the text of a divider block between two blank
  lines: it is not a marker of its own, and trimmed it is exactly what a divider block
  renders. As a whole string it is never the text of a block that carries a marker of
  its own (a heading, a bulleted item, a to-do, a quote, a callout, a code block, a
  divider) nor of an unsupported block; a block that renders its rich text as it is (a
  paragraph, a numbered item, a toggle, a table row) has that text exactly when its own
  text is that string.
\<close>

theorem pageSeparator_and_block_markers:
  "contextText (ps @ [p]) =
     (if ps = [] then pageContext 0 p
      else contextText ps @ pageSeparator @ pageContext (length ps) p) \<and>
   (notionPages \<noteq> [] \<longrightarrow>
      map user_content (snd (generateAnswer anthropic query notionPages)) =
        [js ''Contexto del wiki de Notion:'' @ [LF, LF] @ contextText notionPages
           @ [LF, LF] @ js ''---'' @ [LF, LF] @ js ''Pregunta: '' @ query]) \<and>
   pageSeparator = [LF, LF] @ blockText Divider @ [LF, LF] \<and>
   trim pageSeparator = blockText Divider \<and>
   (blockText v = pageSeparator \<longleftrightarrow>
     (case v of
        Paragraph rt \<Rightarrow> extractRichText rt = pageSeparator
      | Numbered_list_item rt \<Rightarrow> extractRichText rt = pageSeparator
      | Toggle rt \<Rightarrow> extractRichText rt = pageSeparator
      | Table_row cells \<Rightarrow> join (js '' | '') (map extractRichText cells) = pageSeparator
      | _ \<Rightarrow> False))"
proof (intro conjI impI)
  show "contextText (ps @ [p]) =
     (if ps = [] then pageContext 0 p
      else contextText ps @ pageSeparator @ pageContext (length ps) p)"
    by (rule contextText_snoc)
  show "map user_content (snd (generateAnswer anthropic query notionPages)) =
        [js ''Contexto del wiki de Notion:'' @ [LF, LF] @ contextText notionPages
           @ [LF, LF] @ js ''---'' @ [LF, LF] @ js ''Pregunta: '' @ query]"
    if "notionPages \<noteq> []"
    using that
    by (simp add: generateAnswer_def Let_def split: sum.splits option.splits content_block.splits)
  show "pageSeparator = [LF, LF] @ blockText Divider @ [LF, LF]"
    by (simp add: pageSeparator_def)
  show "trim pageSeparator = blockText Divider"
    by (simp add: trim_def pageSeparator_def js_def isWhiteSpace_def)
  show "blockText v = pageSeparator \<longleftrightarrow>
     (case v of
        Paragraph rt \<Rightarrow> extractRichText rt = pageSeparator
      | Numbered_list_item rt \<Rightarrow> extractRichText rt = pageSeparator
      | Toggle rt \<Rightarrow> extractRichText rt = pageSeparator
      | Table_row cells \<Rightarrow> join (js '' | '') (map extractRichText cells) = pageSeparator
      | _ \<Rightarrow> False)"
    by (cases v) (simp_all add: pageSeparator_def js_def)
qed

text \<open>
  Two documents of the wiki are joined by the separator in the request that is sent; a
  heading never renders as the separator, whatever its text.
\<close>

theorem pageSeparator_and_block_markers_witness:
  "contextText [otherDoc, helloDoc]
     = pageContext 0 otherDoc @ pageSeparator @ pageContext 1 helloDoc
   \<and> map user_content (snd (generateAnswer nonTextModel (js ''vacaciones'') [otherDoc, helloDoc]))
     = [js ''Contexto del wiki de Notion:'' @ [LF, LF]
          @ pageContext 0 otherDoc @ pageSeparator @ pageContext 1 helloDoc
          @ [LF, LF] @ js ''---'' @ [LF, LF] @ js ''Pregunta: '' @ js ''vacaciones'']
   \<and> trim pageSeparator = blockText Divider
   \<and> blockText (Heading_2 [\<lparr>plain_text = [LF, LF] @ js ''---'' @ [LF, LF]\<rparr>]) \<noteq> pageSeparator"
proof -
  note thm2 = pageSeparator_and_block_markers
      [of "[otherDoc]" helloDoc "[otherDoc, helloDoc]" nonTextModel "js ''vacaciones''"
          "Heading_2 [\<lparr>plain_text = [LF, LF] @ js ''---'' @ [LF, LF]\<rparr>]"]
  note thm1 = pageSeparator_and_block_markers
      [of "[]" otherDoc "[otherDoc, helloDoc]" nonTextModel "js ''vacaciones''" Divider]
  have one: "contextText [otherDoc] = pageContext 0 otherDoc"
    using thm1 by simp
  have two: "contextText [otherDoc, helloDoc]
     = pageContext 0 otherDoc @ pageSeparator @ pageContext 1 helloDoc"
    using thm2 one by simp
  have ne: "[otherDoc, helloDoc] \<noteq> []" by simp
  have req: "map user_content (snd (generateAnswer nonTextModel (js ''vacaciones'') [otherDoc, helloDoc]))
     = [js ''Contexto del wiki de Notion:'' @ [LF, LF] @ contextText [otherDoc, helloDoc]
          @ [LF, LF] @ js ''---'' @ [LF, LF] @ js ''Pregunta: '' @ js ''vacaciones'']"
    using thm2 ne by blast
  have sep: "trim pageSeparator = blockText Divider" using thm2 by blast
  have hd: "blockText (Heading_2 [\<lparr>plain_text = [LF, LF] @ js ''---'' @ [LF, LF]\<rparr>]) \<noteq> pageSeparator"
    using thm2 by (simp only: block_variant.case) blast
  from two req sep hd show ?thesis by (simp only: append_assoc) simp
qed

text \<open>
  The divider block renders the marker of the separator, and the page with a divider
  between its two paragraphs flattens to ``A'', the separator and ``B'': the text of
  one document holds the very string that is put between documents.
\<close>

theorem divider_in_flattened_text_counterexample:
  "blockText Divider = trim pageSeparator
   \<and> fst (extractBlockContent dividerNotion (js ''page'') 0 [])
       = Inr (js ''A'' @ pageSeparator @ js ''B'')"
  by (simp add: extractBlockContent.simps dividerNotion_def
        pageSeparator_def js_def extractRichText_def trim_def isWhiteSpace_def Let_def)


section \<open>The database filter\<close>

lemma normalizeId_hyphen: "normalizeId (a @ HYPHEN # b) = normalizeId (a @ b)"
  by (simp add: normalizeId_def)

text \<open>
  C6. With a non-empty \<open>NOTION_DATABASE_ID\<close>, a search result passes the filter exactly
  when it is a full page whose parent is a database and the identifier of that database
  equals the configured one after both are normalised; every other result is excluded.
  Two identifiers are equal after normalisation exactly when they are equal once their
  hyphens are deleted: normalising leaves an identifier without hyphens as it is, so two
  such identifiers match only when they are the same, and writing a hyphen anywhere into
  the configured identifier, or into the parent identifier of a candidate, changes no
  decision.
\<close>

theorem scope_filter_normalized:
  assumes "databaseId \<noteq> []" and "a @ b \<noteq> []"
  shows "(r \<in> set (filtered (Some databaseId) results) \<longleftrightarrow>
            r \<in> set results \<and>
            (\<exists>page database_id. r = FullPage page \<and> parent page = Database_id database_id \<and>
               normalizeId database_id = normalizeId databaseId))
         \<and> filtered (Some (a @ HYPHEN # b)) results = filtered (Some (a @ b)) results
         \<and> inDatabase databaseId (FullPage (page\<lparr>parent := Database_id (a @ HYPHEN # b)\<rparr>))
             = inDatabase databaseId (FullPage (page\<lparr>parent := Database_id (a @ b)\<rparr>))
         \<and> (normalizeId x = normalizeId y \<longleftrightarrow>
              filter (\<lambda>c. c \<noteq> HYPHEN) x = filter (\<lambda>c. c \<noteq> HYPHEN) y)
         \<and> (HYPHEN \<notin> set x \<longrightarrow> normalizeId x = x)
         \<and> (HYPHEN \<notin> set x \<longrightarrow> HYPHEN \<notin> set y \<longrightarrow>
              (normalizeId x = normalizeId y \<longleftrightarrow> x = y))
         \<and> (HYPHEN \<notin> set databaseId \<longrightarrow> HYPHEN \<notin> set y \<longrightarrow>
              (FullPage (page\<lparr>parent := Database_id y\<rparr>) \<in> set (filtered (Some databaseId) results)
                 \<longleftrightarrow> FullPage (page\<lparr>parent := Database_id y\<rparr>) \<in> set results \<and> y = databaseId))"
proof (intro conjI impI)
  show m: "r \<in> set (filtered (Some databaseId) results) \<longleftrightarrow>
            r \<in> set results \<and>
            (\<exists>page database_id. r = FullPage page \<and> parent page = Database_id database_id \<and>
               normalizeId database_id = normalizeId databaseId)" for r
    using assms(1)
    by (auto simp: filtered_def inDatabase_def split: search_result.splits parent.splits)
  have "inDatabase (a @ HYPHEN # b) = inDatabase (a @ b)"
    by (rule ext)
       (simp add: inDatabase_def normalizeId_hyphen split: search_result.splits parent.splits)
  then show "filtered (Some (a @ HYPHEN # b)) results = filtered (Some (a @ b)) results"
    using assms(2) by (simp add: filtered_def)
  show "inDatabase databaseId (FullPage (page\<lparr>parent := Database_id (a @ HYPHEN # b)\<rparr>))
             = inDatabase databaseId (FullPage (page\<lparr>parent := Database_id (a @ b)\<rparr>))"
    by (simp add: inDatabase_def normalizeId_hyphen)
  show "normalizeId x = normalizeId y \<longleftrightarrow>
              filter (\<lambda>c. c \<noteq> HYPHEN) x = filter (\<lambda>c. c \<noteq> HYPHEN) y"
    by (simp add: normalizeId_def)
  show "normalizeId x = x" if "HYPHEN \<notin> set x"
    using that by (auto simp: normalizeId_def intro: filter_True)
  show "normalizeId x = normalizeId y \<longleftrightarrow> x = y" if "HYPHEN \<notin> set x" "HYPHEN \<notin> set y"
  proof -
    have "normalizeId x = x" "normalizeId y = y"
      using that by (auto simp: normalizeId_def intro: filter_True)
    then show ?thesis by simp
  qed
  show "FullPage (page\<lparr>parent := Database_id y\<rparr>) \<in> set (filtered (Some databaseId) results)
          \<longleftrightarrow> FullPage (page\<lparr>parent := Database_id y\<rparr>) \<in> set results \<and> y = databaseId"
    if "HYPHEN \<notin> set databaseId" "HYPHEN \<notin> set y"
  proof -
    have "normalizeId databaseId = databaseId" "normalizeId y = y"
      using that by (auto simp: normalizeId_def intro: filter_True)
    then show ?thesis using m[of "FullPage (page\<lparr>parent := Database_id y\<rparr>)"] by auto
  qed
qed

lemma filtered_wiki:
  "filtered (Some (js ''abc123'')) wikiResults
     = [FullPage blankPage, FullPage brokenPage, FullPage helloPage, FullPage latePage]"
  by (simp add: filtered_def inDatabase_def normalizeId_def wikiResults_def blankPage_def
        brokenPage_def otherPage_def helloPage_def latePage_def js_def)

text \<open>
  In the wiki, the pages whose parent is \<open>abc-123\<close> or \<open>abc123\<close> pass the filter for
  \<open>abc123\<close> and for \<open>abc-123\<close> alike; the page below another page and the page of the
  database \<open>abd-123\<close> do not.
\<close>

theorem scope_filter_normalized_witness:
  "filtered (Some (js ''abc123'')) wikiResults
     = [FullPage blankPage, FullPage brokenPage, FullPage helloPage, FullPage latePage]
   \<and> filtered (Some (js ''abc-123'')) wikiResults = filtered (Some (js ''abc123'')) wikiResults
   \<and> FullPage otherPage \<notin> set (filtered (Some (js ''abc123'')) wikiResults)
   \<and> FullPage foreignPage \<notin> set (filtered (Some (js ''abc123'')) (FullPage foreignPage # wikiResults))
   \<and> normalizeId (js ''abc-123'') = js ''abc123''
   \<and> normalizeId (js ''abd-123'') \<noteq> normalizeId (js ''abc123'')"
proof -
  have d: "js ''abc123'' \<noteq> []" and ab: "js ''abc'' @ js ''123'' \<noteq> []"
    by (simp_all add: js_def)
  have 1: "js ''abc'' @ HYPHEN # js ''123'' = js ''abc-123''"
    and 2: "js ''abc'' @ js ''123'' = js ''abc123''"
    by (simp_all add: js_def)
  note t = scope_filter_normalized[OF d ab]
  have o: "\<not> (\<exists>page database_id. FullPage otherPage = FullPage page \<and>
              parent page = Database_id database_id \<and>
              normalizeId database_id = normalizeId (js ''abc123''))"
    by (simp add: otherPage_def)
  have A: "filtered (Some (js ''abc-123'')) wikiResults = filtered (Some (js ''abc123'')) wikiResults"
    using t[of "FullPage otherPage" wikiResults otherPage "js ''abd123''" "js ''abc123''"] 1 2
    by simp
  have B: "FullPage otherPage \<notin> set (filtered (Some (js ''abc123'')) wikiResults)"
    using t[of "FullPage otherPage" wikiResults otherPage "js ''abd123''" "js ''abc123''"] o
    by blast
  have h: "HYPHEN \<notin> set (js ''abc123'')" "HYPHEN \<notin> set (js ''abd123'')"
    by (simp_all add: js_def)
  have ne: "js ''abd123'' \<noteq> js ''abc123''" by (simp add: js_def)
  have N: "normalizeId (js ''abd123'') \<noteq> normalizeId (js ''abc123'')"
    using t[of "FullPage otherPage" wikiResults otherPage "js ''abd123''" "js ''abc123''"] h ne
    by blast
  have I: "normalizeId (js ''abc'' @ HYPHEN # js ''123'') = normalizeId (js ''abc'' @ js ''123'')"
    by (rule normalizeId_hyphen)
  have E: "normalizeId (js ''abc123'') = js ''abc123''"
    using t[of "FullPage otherPage" wikiResults otherPage "js ''abc123''" "js ''abc123''"] h
    by blast
  have C: "normalizeId (js ''abc-123'') = js ''abc123''"
    using I E 1 2 by simp
  have I': "normalizeId (js ''abd'' @ HYPHEN # js ''123'') = normalizeId (js ''abd'' @ js ''123'')"
    by (rule normalizeId_hyphen)
  have D: "normalizeId (js ''abd-123'') \<noteq> normalizeId (js ''abc123'')"
    using I' N by (simp add: js_def)
  have f: "\<not> (\<exists>page database_id. FullPage foreignPage = FullPage page \<and>
              parent page = Database_id database_id \<and>
              normalizeId database_id = normalizeId (js ''abc123''))"
    using D by (simp add: foreignPage_def)
  have F: "FullPage foreignPage \<notin> set (filtered (Some (js ''abc123'')) (FullPage foreignPage # wikiResults))"
    using t[of "FullPage foreignPage" "FullPage foreignPage # wikiResults" otherPage
             "js ''abd123''" "js ''abc123''"] f
    by blast
  from filtered_wiki A B F C D show ?thesis by blast
qed


section \<open>Selecting pages\<close>

subsection \<open>The loop over the candidates\<close>

lemma searchLoop_acc:
  "searchLoop notion rs pages log =
     (pages @ fst (searchLoop notion rs [] log), snd (searchLoop notion rs [] log))"
proof (induction rs arbitrary: pages log)
  case Nil
  show ?case by simp
next
  case (Cons r rs)
  show ?case
  proof (cases r)
    case NotFullPage
    then show ?thesis using Cons.IH[of pages log] by simp
  next
    case (FullPage result)
    obtain outcome log' where
      e: "extractBlockContent notion (page_id result) 0 log = (outcome, log')"
      by (cases "extractBlockContent notion (page_id result) 0 log")
    show ?thesis
    proof (cases outcome)
      case (Inl err)
      then show ?thesis using FullPage e Cons.IH[of pages log'] by (simp add: Let_def)
    next
      case (Inr flat)
      show ?thesis
      proof (cases "trim flat \<noteq> []")
        case True
        then show ?thesis using FullPage e Inr
            Cons.IH[of "pages @ [rendering result flat]" log']
            Cons.IH[of "[rendering result flat]" log']
          by (simp add: Let_def rendering_def)
      next
        case False
        then show ?thesis using FullPage e Inr Cons.IH[of pages log'] by (simp add: Let_def)
      qed
    qed
  qed
qed

lemma searchLoop_append:
  "searchLoop notion (xs @ ys) pages log =
     (case searchLoop notion xs pages log of
        (pages', log') \<Rightarrow> searchLoop notion ys pages' log')"
proof (induction xs arbitrary: pages log)
  case Nil
  show ?case by simp
next
  case (Cons r rs)
  show ?case
  proof (cases r)
    case NotFullPage
    then show ?thesis using Cons.IH by simp
  next
    case (FullPage result)
    then show ?thesis using Cons.IH
      by (simp add: Let_def split: prod.splits sum.splits)
  qed
qed

lemma searchLoop_Cons_FullPage:
  assumes "extractBlockContent notion (page_id result) 0 log = (outcome, log')"
  shows "searchLoop notion (FullPage result # rest) pages log =
           searchLoop notion rest (pages @ contribution result outcome) log'"
  using assms by (cases outcome) (simp_all add: Let_def contribution_def rendering_def)

text \<open>
  The candidate at any position of the list adds its contribution between the pages of
  the candidates before it and those of the candidates after it.
\<close>

lemma searchLoop_position:
  assumes "searchLoop notion before [] log = (pages1, log1)"
    and "extractBlockContent notion (page_id result) 0 log1 = (outcome, log2)"
  shows "fst (searchLoop notion (before @ FullPage result # after) [] log) =
           pages1 @ contribution result outcome @ fst (searchLoop notion after [] log2)"
proof -
  have "searchLoop notion (before @ FullPage result # after) [] log
          = searchLoop notion (FullPage result # after) pages1 log1"
    using assms(1) by (simp add: searchLoop_append)
  also have "\<dots> = searchLoop notion after (pages1 @ contribution result outcome) log2"
    using assms(2) by (rule searchLoop_Cons_FullPage)
  finally show ?thesis
    using searchLoop_acc[of notion after "pages1 @ contribution result outcome" log2] by simp
qed

text \<open>Every page of the output was pushed for some candidate, at its turn.\<close>

lemma searchLoop_origin:
  assumes "pg \<in> set (fst (searchLoop notion rs [] log))"
  shows "\<exists>before result after flat log2.
           rs = before @ FullPage result # after \<and>
           extractBlockContent notion (page_id result) 0 (snd (searchLoop notion before [] log))
             = (Inr flat, log2) \<and>
           trim flat \<noteq> [] \<and> pg = rendering result flat"
  using assms
proof (induction rs rule: rev_induct)
  case Nil
  then show ?case by simp
next
  case (snoc r rs)
  obtain pages1 log1 where l: "searchLoop notion rs [] log = (pages1, log1)"
    by (cases "searchLoop notion rs [] log")
  have split: "searchLoop notion (rs @ [r]) [] log = searchLoop notion [r] pages1 log1"
    using l by (simp add: searchLoop_append)
  show ?case
  proof (cases "pg \<in> set pages1")
    case True
    with snoc.IH l obtain before result after flat log2 where
      rs: "rs = before @ FullPage result # after"
      and e: "extractBlockContent notion (page_id result) 0
                (snd (searchLoop notion before [] log)) = (Inr flat, log2)"
      and t: "trim flat \<noteq> []" and pg: "pg = rendering result flat"
      by auto
    from rs have "rs @ [r] = before @ FullPage result # (after @ [r])" by simp
    with e t pg show ?thesis by blast
  next
    case False
    show ?thesis
    proof (cases r)
      case NotFullPage
      with split l snoc.prems False show ?thesis by simp
    next
      case (FullPage result)
      obtain outcome log2 where
        e: "extractBlockContent notion (page_id result) 0 log1 = (outcome, log2)"
        by (cases "extractBlockContent notion (page_id result) 0 log1")
      have "searchLoop notion (rs @ [r]) [] log = (pages1 @ contribution result outcome, log2)"
        using split FullPage searchLoop_Cons_FullPage[OF e, of "[]" pages1] by simp
      with snoc.prems False have "pg \<in> set (contribution result outcome)" by simp
      then obtain flat where
        "outcome = Inr flat" "trim flat \<noteq> []" "pg = rendering result flat"
        by (auto simp: contribution_def split: sum.splits if_splits)
      moreover have "rs @ [r] = rs @ FullPage result # []" using FullPage by simp
      moreover have "snd (searchLoop notion rs [] log) = log1" using l by simp
      ultimately show ?thesis using e by blast
    qed
  qed
qed

text \<open>The pages of the output come from a subsequence of the candidates, in order.\<close>

lemma searchLoop_subseq:
  "\<exists>ps. subseq (map FullPage ps) rs \<and>
        list_all2 (\<lambda>pg p. np_id pg = page_id p \<and> title pg = extractPageTitle p \<and>
                           url pg = page_url p)
          (fst (searchLoop notion rs [] log)) ps"
proof (induction rs arbitrary: log)
  case Nil
  show ?case by simp
next
  case (Cons r rs)
  show ?case
  proof (cases r)
    case NotFullPage
    from Cons.IH[of log] obtain ps where
      "subseq (map FullPage ps) rs"
      "list_all2 (\<lambda>pg p. np_id pg = page_id p \<and> title pg = extractPageTitle p \<and>
                          url pg = page_url p)
          (fst (searchLoop notion rs [] log)) ps" by blast
    then show ?thesis using NotFullPage by (auto intro!: exI[of _ ps])
  next
    case (FullPage result)
    obtain outcome log' where
      e: "extractBlockContent notion (page_id result) 0 log = (outcome, log')"
      by (cases "extractBlockContent notion (page_id result) 0 log")
    from Cons.IH[of log'] obtain ps where
      ps: "subseq (map FullPage ps) rs"
      "list_all2 (\<lambda>pg p. np_id pg = page_id p \<and> title pg = extractPageTitle p \<and>
                          url pg = page_url p)
          (fst (searchLoop notion rs [] log')) ps" by blast
    have eq: "fst (searchLoop notion (r # rs) [] log)
                = contribution result outcome @ fst (searchLoop notion rs [] log')"
      using FullPage searchLoop_Cons_FullPage[OF e, of rs "[]"]
        searchLoop_acc[of notion rs "contribution result outcome" log'] by simp
    show ?thesis
    proof (cases "contribution result outcome = []")
      case True
      with eq ps FullPage show ?thesis by (auto intro!: exI[of _ ps])
    next
      case False
      then have c: "contribution result outcome = [rendering result (projr outcome)]"
        by (auto simp: contribution_def split: sum.splits if_splits)
      show ?thesis
        using eq ps FullPage c by (auto intro!: exI[of _ "result # ps"] simp: rendering_def)
    qed
  qed
qed

subsection \<open>Evaluating the example wiki\<close>

lemmas wiki_defs =
  wikiNotion_def wikiResults_def blankPage_def brokenPage_def otherPage_def helloPage_def
  latePage_def blankParagraph_def brokenToggle_def helloParagraph_def worldItem_def
  otherDoc_def helloDoc_def lateDoc_def js_def extractRichText_def extractPageTitle_def
  isTitle_def trim_def isWhiteSpace_def Let_def extractBlockContent.simps
  filtered_def inDatabase_def normalizeId_def

lemma search_wiki: "search wikiNotion query = Inr wikiResults"
  by (simp add: wikiNotion_def)

lemma candidates_wiki_database:
  "take 5 (filtered (Some (js ''abc-123'')) wikiResults)
     = [FullPage blankPage, FullPage brokenPage, FullPage helloPage, FullPage latePage]"
  "take 5 (filtered (Some (js ''abc123'')) wikiResults)
     = [FullPage blankPage, FullPage brokenPage, FullPage helloPage, FullPage latePage]"
  by (simp_all add: wiki_defs)

lemma candidates_wiki_all:
  "take 5 (filtered None wikiResults)
     = [FullPage blankPage, NotFullPage, FullPage brokenPage, FullPage otherPage,
        FullPage helloPage]"
  by (simp add: wiki_defs)

lemma loop_wiki_blank:
  "searchLoop wikiNotion [FullPage blankPage] [] [] = ([], [js ''blank''])"
  by (simp add: wiki_defs)

lemma flat_wiki_blank:
  "extractBlockContent wikiNotion (page_id blankPage) 0 [] = (Inr [], [js ''blank''])"
  by (simp add: wiki_defs)

lemma flat_wiki_broken:
  "extractBlockContent wikiNotion (page_id brokenPage) 0 [js ''blank'']
     = (Inl (ApiError (js ''object_not_found'')), [js ''gone'', js ''broken'', js ''blank''])"
  by (simp add: wiki_defs)

lemma loop_wiki_hello_late:
  "fst (searchLoop wikiNotion [FullPage helloPage, FullPage latePage] []
          [js ''gone'', js ''broken'', js ''blank''])
     = [helloDoc, lateDoc]"
  by (simp add: wiki_defs)

lemma loop_wiki_broken_hello_late:
  "fst (searchLoop wikiNotion [FullPage brokenPage, FullPage helloPage, FullPage latePage] []
          [js ''blank''])
     = [helloDoc, lateDoc]"
  by (simp add: wiki_defs)

lemma loop_wiki_first_four:
  "searchLoop wikiNotion
     [FullPage blankPage, NotFullPage, FullPage brokenPage, FullPage otherPage] [] []
     = ([otherDoc], [js ''other'', js ''gone'', js ''broken'', js ''blank''])"
  by (simp add: wiki_defs defaultTitle_def)

lemma flat_wiki_hello:
  "extractBlockContent wikiNotion (page_id helloPage) 0
     [js ''other'', js ''gone'', js ''broken'', js ''blank'']
     = (Inr (js ''Hello'' @ [LF] @ [0x2022, SP] @ js ''World''),
        [js ''p'', js ''root'', js ''other'', js ''gone'', js ''broken'', js ''blank''])"
  by (simp add: wiki_defs)

lemma searchNotion_wiki_all:
  "searchNotion wikiNotion None query = Inr [otherDoc, helloDoc]"
  by (simp add: searchNotion_def wiki_defs defaultTitle_def)


subsection \<open>Failures stay with their candidate\<close>

text \<open>
  C4. When the search succeeds, \<open>searchNotion\<close> returns a list of pages, whatever
  happens while the candidates are processed: no exception of the loop reaches the
  caller. Take the candidate at any position of \<open>filtered.slice(0, 5)\<close>, and let
  \<open>outcome\<close> be what flattening it gives at its turn. If that is an exception, the
  candidate adds nothing; if it is a text, the candidate adds its rendering when the
  trimmed text is not empty. In each case the candidates after it are processed from the
  log it leaves, and the result is the pages of the candidates before it, its own
  contribution, and the pages of the candidates after it.
\<close>

theorem searchNotion_isolates_failures:
  assumes "search notion query = Inr results"
  shows "\<exists>pages. searchNotion notion databaseId query = Inr pages \<and>
     (\<forall>before result after outcome log2.
         take 5 (filtered databaseId results) = before @ FullPage result # after \<longrightarrow>
         extractBlockContent notion (page_id result) 0 (snd (searchLoop notion before [] []))
           = (outcome, log2) \<longrightarrow>
         pages = fst (searchLoop notion before [] [])
                 @ (case outcome of
                      Inl err \<Rightarrow> []
                    | Inr flat \<Rightarrow>
                        if trim flat \<noteq> []
                        then [\<lparr>np_id = page_id result, title = extractPageTitle result,
                                url = page_url result, content = take 3000 flat\<rparr>]
                        else [])
                 @ fst (searchLoop notion after [] log2))"
proof (intro exI conjI allI impI)
  let ?cands = "take 5 (filtered databaseId results)"
  show "searchNotion notion databaseId query = Inr (fst (searchLoop notion ?cands [] []))"
    using assms by (simp add: searchNotion_def)
  fix before result after outcome log2
  assume c: "?cands = before @ FullPage result # after"
    and e: "extractBlockContent notion (page_id result) 0
              (snd (searchLoop notion before [] [])) = (outcome, log2)"
  have "searchLoop notion before [] []
          = (fst (searchLoop notion before [] []), snd (searchLoop notion before [] []))"
    by simp
  from searchLoop_position[OF this e, of after] c
  show "fst (searchLoop notion ?cands [] [])
          = fst (searchLoop notion before [] [])
            @ (case outcome of
                 Inl err \<Rightarrow> []
               | Inr flat \<Rightarrow>
                   if trim flat \<noteq> []
                   then [\<lparr>np_id = page_id result, title = extractPageTitle result,
                           url = page_url result, content = take 3000 flat\<rparr>]
                   else [])
            @ fst (searchLoop notion after [] log2)"
    by (simp add: contribution_def rendering_def split: sum.splits)
qed

text \<open>
  In the wiki the second candidate of the database fails while the children of its
  toggle are fetched; the two candidates after it are rendered.
\<close>

theorem searchNotion_isolates_failures_witness:
  "searchNotion wikiNotion (Some (js ''abc-123'')) (js ''vacaciones'')
     = Inr [helloDoc, lateDoc]
   \<and> extractBlockContent wikiNotion (page_id brokenPage) 0 [js ''blank'']
     = (Inl (ApiError (js ''object_not_found'')), [js ''gone'', js ''broken'', js ''blank''])"
proof -
  from searchNotion_isolates_failures
         [OF search_wiki, of "Some (js ''abc-123'')" "js ''vacaciones''"]
  obtain pages where
    res: "searchNotion wikiNotion (Some (js ''abc-123'')) (js ''vacaciones'') = Inr pages"
    and at: "\<And>before result after outcome log2.
         take 5 (filtered (Some (js ''abc-123'')) wikiResults)
           = before @ FullPage result # after \<Longrightarrow>
         extractBlockContent wikiNotion (page_id result) 0
           (snd (searchLoop wikiNotion before [] [])) = (outcome, log2) \<Longrightarrow>
         pages = fst (searchLoop wikiNotion before [] [])
                 @ (case outcome of
                      Inl err \<Rightarrow> []
                    | Inr flat \<Rightarrow>
                        if trim flat \<noteq> []
                        then [\<lparr>np_id = page_id result, title = extractPageTitle result,
                                url = page_url result, content = take 3000 flat\<rparr>]
                        else [])
                 @ fst (searchLoop wikiNotion after [] log2)"
    by blast
  have c: "take 5 (filtered (Some (js ''abc-123'')) wikiResults)
             = [FullPage blankPage] @ FullPage brokenPage # [FullPage helloPage, FullPage latePage]"
    using candidates_wiki_database(1) by simp
  have e: "extractBlockContent wikiNotion (page_id brokenPage) 0
             (snd (searchLoop wikiNotion [FullPage blankPage] [] []))
           = (Inl (ApiError (js ''object_not_found'')), [js ''gone'', js ''broken'', js ''blank''])"
    using flat_wiki_broken by (simp only: loop_wiki_blank snd_conv)
  from at[OF c e] have "pages = [helloDoc, lateDoc]"
    unfolding loop_wiki_hello_late loop_wiki_blank by simp
  with res flat_wiki_broken show ?thesis by simp
qed


subsection \<open>Blank pages are dropped\<close>

text \<open>
  C3, as the code has it. When the search succeeds, \<open>searchNotion\<close> returns a list of
  pages and no error. Every page of that list was pushed for a candidate whose flattened
  text, at its turn, had a non-empty trim, and its \<open>content\<close> is the first 3000 code
  units of that text. A candidate whose flattened text is empty or all white space adds
  nothing: the result is what the candidates before it and after it give.
\<close>

theorem searchNotion_drops_blank_pages:
  assumes "search notion query = Inr results"
  shows "\<exists>pages. searchNotion notion databaseId query = Inr pages \<and>
     (\<forall>pg\<in>set pages. \<exists>before result after flat log2.
         take 5 (filtered databaseId results) = before @ FullPage result # after \<and>
         extractBlockContent notion (page_id result) 0 (snd (searchLoop notion before [] []))
           = (Inr flat, log2) \<and>
         trim flat \<noteq> [] \<and>
         pg = \<lparr>np_id = page_id result, title = extractPageTitle result,
                url = page_url result, content = take 3000 flat\<rparr>) \<and>
     (\<forall>before result after flat log2.
         take 5 (filtered databaseId results) = before @ FullPage result # after \<longrightarrow>
         extractBlockContent notion (page_id result) 0 (snd (searchLoop notion before [] []))
           = (Inr flat, log2) \<longrightarrow>
         trim flat = [] \<longrightarrow>
         pages = fst (searchLoop notion before [] []) @ fst (searchLoop notion after [] log2))"
proof (intro exI conjI)
  let ?cands = "take 5 (filtered databaseId results)"
  show "searchNotion notion databaseId query = Inr (fst (searchLoop notion ?cands [] []))"
    using assms by (simp add: searchNotion_def)
  show "\<forall>pg\<in>set (fst (searchLoop notion ?cands [] [])). \<exists>before result after flat log2.
         ?cands = before @ FullPage result # after \<and>
         extractBlockContent notion (page_id result) 0 (snd (searchLoop notion before [] []))
           = (Inr flat, log2) \<and>
         trim flat \<noteq> [] \<and>
         pg = \<lparr>np_id = page_id result, title = extractPageTitle result,
                url = page_url result, content = take 3000 flat\<rparr>"
    using searchLoop_origin[of _ notion ?cands "[]"] unfolding rendering_def by blast
  show "\<forall>before result after flat log2.
         ?cands = before @ FullPage result # after \<longrightarrow>
         extractBlockContent notion (page_id result) 0 (snd (searchLoop notion before [] []))
           = (Inr flat, log2) \<longrightarrow>
         trim flat = [] \<longrightarrow>
         fst (searchLoop notion ?cands [] [])
           = fst (searchLoop notion before [] []) @ fst (searchLoop notion after [] log2)"
  proof (intro allI impI)
    fix before result after flat log2
    assume c: "?cands = before @ FullPage result # after"
      and e: "extractBlockContent notion (page_id result) 0
                (snd (searchLoop notion before [] [])) = (Inr flat, log2)"
      and t: "trim flat = []"
    have "searchLoop notion before [] []
            = (fst (searchLoop notion before [] []), snd (searchLoop notion before [] []))"
      by simp
    from searchLoop_position[OF this e, of after] c t
    show "fst (searchLoop notion ?cands [] [])
           = fst (searchLoop notion before [] []) @ fst (searchLoop notion after [] log2)"
      by (simp add: contribution_def)
  qed
qed

text \<open>
  In the wiki the first candidate of the database flattens to the empty string, since
  its only paragraph is blank; the result holds the pages of the candidates after it.
\<close>

theorem searchNotion_drops_blank_pages_witness:
  "searchNotion wikiNotion (Some (js ''abc123'')) (js ''vacaciones'') = Inr [helloDoc, lateDoc]
   \<and> extractBlockContent wikiNotion (page_id blankPage) 0 [] = (Inr [], [js ''blank''])
   \<and> (\<exists>flat. trim flat \<noteq> [] \<and> content helloDoc = take 3000 flat)"
proof -
  from searchNotion_drops_blank_pages[OF search_wiki, of "Some (js ''abc123'')" "js ''vacaciones''"]
  obtain pages where
    res: "searchNotion wikiNotion (Some (js ''abc123'')) (js ''vacaciones'') = Inr pages"
    and origin: "\<And>pg. pg \<in> set pages \<Longrightarrow>
         \<exists>before result after flat log2.
           take 5 (filtered (Some (js ''abc123'')) wikiResults)
             = before @ FullPage result # after \<and>
           extractBlockContent wikiNotion (page_id result) 0
             (snd (searchLoop wikiNotion before [] [])) = (Inr flat, log2) \<and>
           trim flat \<noteq> [] \<and>
           pg = \<lparr>np_id = page_id result, title = extractPageTitle result,
                  url = page_url result, content = take 3000 flat\<rparr>"
    and drop: "\<And>before result after flat log2.
         take 5 (filtered (Some (js ''abc123'')) wikiResults)
           = before @ FullPage result # after \<Longrightarrow>
         extractBlockContent wikiNotion (page_id result) 0
           (snd (searchLoop wikiNotion before [] [])) = (Inr flat, log2) \<Longrightarrow>
         trim flat = [] \<Longrightarrow>
         pages = fst (searchLoop wikiNotion before [] [])
                 @ fst (searchLoop wikiNotion after [] log2)"
    by blast
  have c: "take 5 (filtered (Some (js ''abc123'')) wikiResults)
             = [] @ FullPage blankPage
                 # [FullPage brokenPage, FullPage helloPage, FullPage latePage]"
    using candidates_wiki_database(2) by simp
  have e: "extractBlockContent wikiNotion (page_id blankPage) 0
             (snd (searchLoop wikiNotion [] [] [])) = (Inr [], [js ''blank''])"
    using flat_wiki_blank by simp
  have t: "trim [] = []" by (simp add: trim_def)
  from drop[OF c e t] have pages: "pages = [helloDoc, lateDoc]"
    unfolding loop_wiki_broken_hello_late by simp
  then have "helloDoc \<in> set pages" by simp
  from origin[OF this] obtain result flat where
    "trim flat \<noteq> []"
    "helloDoc = \<lparr>np_id = page_id result, title = extractPageTitle result,
                  url = page_url result, content = take 3000 flat\<rparr>"
    by blast
  then have "\<exists>flat. trim flat \<noteq> [] \<and> content helloDoc = take 3000 flat"
    by (metis notion_page.select_convs(4))
  with res pages flat_wiki_blank show ?thesis by simp
qed

text \<open>
  The trim is tested on the whole flattened text, the cut to 3000 code units comes after
  it. The page that starts with 3000 spaces is kept, and its \<open>content\<close> is those 3000
  spaces: the text of a returned document can be all white space.
\<close>

lemma flat_padded:
  "extractBlockContent paddedNotion (js ''padded'') 0 log
     = (Inr (replicate 3000 SP @ js ''x''), js ''padded'' # log)"
  by (simp add: extractBlockContent.simps paddedNotion_def paddedParagraph_def
        extractRichText_def js_def trim_eq_Nil_iff isWhiteSpace_def Let_def)

theorem searchNotion_blank_after_truncation_counterexample:
  "searchNotion paddedNotion None (js ''vacaciones'')
     = Inr [\<lparr>np_id = js ''padded'', title = defaultTitle,
              url = js ''https://www.notion.so/padded'', content = replicate 3000 SP\<rparr>]
   \<and> trim (replicate 3000 SP) = []"
proof
  have "search paddedNotion (js ''vacaciones'') = Inr [FullPage paddedPage]"
    by (simp add: paddedNotion_def)
  moreover have "trim (replicate 3000 SP @ js ''x'') \<noteq> []"
    by (simp add: trim_eq_Nil_iff js_def isWhiteSpace_def)
  moreover have "extractBlockContent paddedNotion (page_id paddedPage) 0 []
     = (Inr (replicate 3000 SP @ js ''x''), [js ''padded''])"
    using flat_padded[of "[]"] by (simp add: paddedPage_def)
  ultimately show "searchNotion paddedNotion None (js ''vacaciones'')
     = Inr [\<lparr>np_id = js ''padded'', title = defaultTitle,
              url = js ''https://www.notion.so/padded'', content = replicate 3000 SP\<rparr>]"
    by (simp add: searchNotion_def filtered_def Let_def)
       (simp add: paddedPage_def extractPageTitle_def)
  show "trim (replicate 3000 SP) = []"
    by (simp add: trim_eq_Nil_iff isWhiteSpace_def)
qed


subsection \<open>At most five candidates, in the order of the search\<close>

text \<open>
  C8. When the search succeeds, \<open>searchNotion\<close> returns at most five pages, and they are
  the renderings of a subsequence of the first five filtered results: there are full
  pages \<open>ps\<close>, a subsequence of \<open>filtered.slice(0, 5)\<close> in its order, such that the
  returned pages carry the identifiers, titles and URLs of \<open>ps\<close>, one by one.
\<close>

theorem searchNotion_first_five_in_order:
  assumes "search notion query = Inr results"
  shows "\<exists>pages ps. searchNotion notion databaseId query = Inr pages \<and> length pages \<le> 5 \<and>
           subseq (map FullPage ps) (take 5 (filtered databaseId results)) \<and>
           list_all2 (\<lambda>pg p. np_id pg = page_id p \<and> title pg = extractPageTitle p \<and>
                              url pg = page_url p) pages ps"
proof -
  let ?cands = "take 5 (filtered databaseId results)"
  let ?pages = "fst (searchLoop notion ?cands [] [])"
  from searchLoop_subseq[of ?cands notion "[]"] obtain ps where
    sub: "subseq (map FullPage ps) ?cands"
    and all2: "list_all2 (\<lambda>pg p. np_id pg = page_id p \<and> title pg = extractPageTitle p \<and>
                              url pg = page_url p) ?pages ps"
    by blast
  have "length ?pages = length ps" using all2 by (rule list_all2_lengthD)
  also have "\<dots> = length (map FullPage ps)" by simp
  also have "\<dots> \<le> length ?cands" using sub by (rule list_emb_length)
  also have "\<dots> \<le> 5" by simp
  finally have "length ?pages \<le> 5" .
  moreover have "searchNotion notion databaseId query = Inr ?pages"
    using assms by (simp add: searchNotion_def)
  ultimately show ?thesis using sub all2 by blast
qed

text \<open>
  Without a database the first five of the six results of the wiki are the candidates;
  two of them give a page, in the order of the search, and the sixth result is not read.
\<close>

theorem searchNotion_first_five_in_order_witness:
  "(\<exists>pages ps. searchNotion wikiNotion None (js ''vacaciones'') = Inr pages \<and>
       length pages \<le> 5 \<and>
       subseq (map FullPage ps) (take 5 (filtered None wikiResults)) \<and>
       list_all2 (\<lambda>pg p. np_id pg = page_id p \<and> title pg = extractPageTitle p \<and>
                          url pg = page_url p) pages ps)
   \<and> searchNotion wikiNotion None (js ''vacaciones'') = Inr [otherDoc, helloDoc]"
  using searchNotion_first_five_in_order[OF search_wiki, of None "js ''vacaciones''"]
    searchNotion_wiki_all[of "js ''vacaciones''"]
  by blast


subsection \<open>Titles\<close>

lemma find_append_not:
  "\<forall>x\<in>set xs. \<not> P x \<Longrightarrow> find P (xs @ ys) = find P ys"
  by (induction xs) auto

lemma extractPageTitle_first_title:
  assumes "properties page = others @ (name, Title t) # later"
    and "\<forall>prop\<in>snd ` set others. \<not> isTitle prop"
  shows "extractPageTitle page = extractRichText t"
proof -
  have "find isTitle (map snd (properties page)) = Some (Title t)"
    using assms by (simp add: find_append_not isTitle_def)
  then show ?thesis by (simp add: extractPageTitle_def)
qed

lemma extractPageTitle_no_title:
  assumes "\<forall>prop\<in>snd ` set (properties page). \<not> isTitle prop"
  shows "extractPageTitle page = defaultTitle"
proof -
  have "find isTitle (map snd (properties page)) = None"
    using assms by (simp add: find_None_iff)
  then show ?thesis by (simp add: extractPageTitle_def)
qed

text \<open>
  C10. A page with no property of type \<open>title\<close> gets the default title; a page with
  such a property gets the text of the first one. So when the first title property of a
  candidate has an empty rich-text array, its title is the empty string, which is not
  the default; and when its flattened text has a non-empty trim, \<open>searchNotion\<close> returns
  the page with that empty title, between the pages of the candidates before and after.
\<close>

theorem empty_title_is_kept:
  assumes "properties result = others @ (name, Title []) # later"
    and "\<forall>prop\<in>snd ` set others. \<not> isTitle prop"
    and "search notion query = Inr results"
    and "take 5 (filtered databaseId results) = before @ FullPage result # after"
    and "searchLoop notion before [] [] = (pages1, log1)"
    and "extractBlockContent notion (page_id result) 0 log1 = (Inr flat, log2)"
    and "trim flat \<noteq> []"
  shows "extractPageTitle result = [] \<and> defaultTitle \<noteq> [] \<and>
         searchNotion notion databaseId query
           = Inr (pages1
                  @ [\<lparr>np_id = page_id result, title = [], url = page_url result,
                       content = take 3000 flat\<rparr>]
                  @ fst (searchLoop notion after [] log2)) \<and>
         (\<forall>page. (\<forall>prop\<in>snd ` set (properties page). \<not> isTitle prop)
                   \<longrightarrow> extractPageTitle page = defaultTitle) \<and>
         (\<forall>page xs n t ys.
             properties page = xs @ (n, Title t) # ys \<longrightarrow>
             (\<forall>prop\<in>snd ` set xs. \<not> isTitle prop) \<longrightarrow>
             extractPageTitle page = extractRichText t)"
proof (intro conjI)
  show t: "extractPageTitle result = []"
    using extractPageTitle_first_title[OF assms(1,2)] by (simp add: extractRichText_def)
  show "defaultTitle \<noteq> []" by (simp add: defaultTitle_def js_def)
  show "searchNotion notion databaseId query
           = Inr (pages1
                  @ [\<lparr>np_id = page_id result, title = [], url = page_url result,
                       content = take 3000 flat\<rparr>]
                  @ fst (searchLoop notion after [] log2))"
    using assms(3,4,7) searchLoop_position[OF assms(5,6), of after] t
    by (simp add: searchNotion_def contribution_def rendering_def)
  show "\<forall>page. (\<forall>prop\<in>snd ` set (properties page). \<not> isTitle prop)
                   \<longrightarrow> extractPageTitle page = defaultTitle"
    using extractPageTitle_no_title by blast
  show "\<forall>page xs n t ys.
             properties page = xs @ (n, Title t) # ys \<longrightarrow>
             (\<forall>prop\<in>snd ` set xs. \<not> isTitle prop) \<longrightarrow>
             extractPageTitle page = extractRichText t"
    using extractPageTitle_first_title by blast
qed

text \<open>
  In the wiki the fifth result has a title property with no rich text: it is returned
  with the empty title. The fourth has no title property and gets the default.
\<close>

theorem empty_title_is_kept_witness:
  "extractPageTitle helloPage = [] \<and> defaultTitle \<noteq> [] \<and>
   extractPageTitle otherPage = defaultTitle \<and>
   title helloDoc = [] \<and>
   searchNotion wikiNotion None (js ''vacaciones'') = Inr [otherDoc, helloDoc]"
proof -
  have p: "properties helloPage = [(js ''Tags'', OtherProperty)] @ (js ''Name'', Title []) # []"
    by (simp add: helloPage_def)
  have o: "\<forall>prop\<in>snd ` set [(js ''Tags'', OtherProperty)]. \<not> isTitle prop"
    by (simp add: isTitle_def)
  have c: "take 5 (filtered None wikiResults)
             = [FullPage blankPage, NotFullPage, FullPage brokenPage, FullPage otherPage]
                 @ FullPage helloPage # []"
    using candidates_wiki_all by simp
  have t: "trim (js ''Hello'' @ [LF] @ [0x2022, SP] @ js ''World'') \<noteq> []"
    by (simp add: trim_eq_Nil_iff js_def isWhiteSpace_def)
  have n: "\<forall>prop\<in>snd ` set (properties otherPage). \<not> isTitle prop"
    by (simp add: otherPage_def isTitle_def)
  from empty_title_is_kept[OF p o search_wiki c loop_wiki_first_four flat_wiki_hello t]
  have 1: "extractPageTitle helloPage = []" and 2: "defaultTitle \<noteq> []"
    and 3: "searchNotion wikiNotion None (js ''vacaciones'')
              = Inr ([otherDoc]
                     @ [\<lparr>np_id = page_id helloPage, title = [], url = page_url helloPage,
                          content = take 3000 (js ''Hello'' @ [LF] @ [0x2022, SP] @ js ''World'')\<rparr>]
                     @ fst (searchLoop wikiNotion [] []
                              [js ''p'', js ''root'', js ''other'', js ''gone'', js ''broken'',
                               js ''blank'']))"
    and 4: "\<forall>page. (\<forall>prop\<in>snd ` set (properties page). \<not> isTitle prop)
                   \<longrightarrow> extractPageTitle page = defaultTitle"
    by blast+
  from 4 n have 5: "extractPageTitle otherPage = defaultTitle" by blast
  from 3 have "searchNotion wikiNotion None (js ''vacaciones'') = Inr [otherDoc, helloDoc]"
    by (simp add: helloDoc_def helloPage_def js_def)
  with 1 2 5 show ?thesis by (simp add: helloDoc_def)
qed


section \<open>The synthesizer without pages\<close>



end
